theory Spec2Isabelle
  imports Main "HOL-Library.Sublist"
begin

section \<open>Streaming chat: Transport (lib/api.ts) and Session Controller (app/chat/page.tsx)\<close>

text \<open>
  Text is modelled as \<^typ>\<open>string\<close>, the list of its code units.  A thrown JavaScript
  value is either an \<open>Error\<close> object carrying its message or some other value; a
  rejected promise is the left injection of a sum.
\<close>

subsection \<open>Data\<close>

datatype thrown = Error string | NonError

text \<open>\<open>ChatRequest\<close> of lib/types.ts.\<close>

record chat_request =
  message :: string
  session_id :: "string option"
  stream :: "bool option"

text \<open>
  One result of \<open>reader.read()\<close> before \<open>done\<close>: a chunk, given by the text that
  \<open>decoder.decode(value)\<close> returns for it, or a rejection.  The body is the finite list
  of these results; the end of the list is \<open>{ done: true }\<close>.
\<close>

datatype read_result = Chunk string | ReadFailure thrown

text \<open>
  What \<open>streamChatMessage\<close> reads of a \<open>Response\<close>: \<open>ok\<close>, \<open>status\<close>, \<open>body\<close>
  (\<open>None\<close> is a null body), the result of \<open>text()\<close> (\<open>None\<close> is a rejection) and
  \<open>headers.get("X-Request-ID")\<close>.
\<close>

record response =
  ok :: bool
  status :: nat
  body :: "read_result list option"
  text_body :: "string option"
  x_request_id :: "string option"

subsection \<open>Strings\<close>

text \<open>\<open>v || undefined\<close> on an optional string: the empty string is falsy.\<close>

definition or_undefined :: "string option \<Rightarrow> string option" where
  "or_undefined h = (case h of None \<Rightarrow> None | Some v \<Rightarrow> if v = [] then None else Some v)"

definition truthy :: "string option \<Rightarrow> bool" where
  "truthy h = (or_undefined h \<noteq> None)"

fun cons_first :: "char \<Rightarrow> string list \<Rightarrow> string list" where
  "cons_first c [] = [[c]]"
| "cons_first c (p # ps) = (c # p) # ps"

text \<open>\<open>chunk.split("\n\n")\<close>: the pieces between the leftmost non-overlapping delimiters.\<close>

fun split_nn :: "string \<Rightarrow> string list" where
  "split_nn [] = [[]]"
| "split_nn [c] = [[c]]"
| "split_nn (c # d # cs) =
     (if c = CHR 0x0A \<and> d = CHR 0x0A then [] # split_nn cs
      else cons_first c (split_nn (d # cs)))"

text \<open>Decimal rendering of a number in a template literal.\<close>

function show_nat :: "nat \<Rightarrow> string" where
  "show_nat n =
     (if n < 10 then [''0123456789'' ! n]
      else show_nat (n div 10) @ [''0123456789'' ! (n mod 10)])"
  by pat_completeness auto
termination
  by (relation "measure id") auto

declare show_nat.simps [simp del]

subsection \<open>Transport: \<open>streamChatMessage\<close>\<close>

text \<open>The body of \<open>for (const line of lines)\<close>; the flag says that \<open>[DONE]\<close> returned.\<close>

fun for_lines :: "string list \<Rightarrow> (string \<Rightarrow> 's \<Rightarrow> 's) \<Rightarrow> 's \<Rightarrow> bool \<times> 's" where
  "for_lines [] onChunk s = (False, s)"
| "for_lines (line # lines) onChunk s =
     (if prefix ''data: '' line then
        (let data = drop 6 line in
         if data = ''[DONE]'' then (True, s)
         else for_lines lines onChunk (onChunk data s))
      else for_lines lines onChunk s)"

text \<open>The \<open>while (true)\<close> loop over the reader.\<close>

fun read_loop :: "read_result list \<Rightarrow> (string \<Rightarrow> 's \<Rightarrow> 's) \<Rightarrow> 's \<Rightarrow> (thrown + unit) \<times> 's" where
  "read_loop [] onChunk s = (Inr (), s)"
| "read_loop (ReadFailure e # rest) onChunk s = (Inl e, s)"
| "read_loop (Chunk chunk # rest) onChunk s =
     (case for_lines (split_nn chunk) onChunk s of
        (returned, s') \<Rightarrow> if returned then (Inr (), s') else read_loop rest onChunk s')"

text \<open>The error thrown at lines 287--295.\<close>

definition start_error :: "response \<Rightarrow> thrown" where
  "start_error r =
     (let errorText = (case text_body r of None \<Rightarrow> [] | Some t \<Rightarrow> t);
          requestId = or_undefined (x_request_id r);
          msg = (if errorText \<noteq> [] then errorText else ''Failed to start stream'');
          composed = (case requestId of
                        Some i \<Rightarrow> msg @ '' (request_id='' @ i @ '')''
                      | None \<Rightarrow> msg)
      in Error composed)"

text \<open>
  \<open>fetch\<close> is the answer of the network to this one call, as a function of the body
  sent; the callbacks update a state of any type.
\<close>

definition streamChatMessage ::
  "(chat_request \<Rightarrow> thrown + response) \<Rightarrow> chat_request \<Rightarrow> (string \<Rightarrow> 's \<Rightarrow> 's) \<Rightarrow>
   (string option \<Rightarrow> 's \<Rightarrow> 's) option \<Rightarrow> 's \<Rightarrow> (thrown + unit) \<times> 's" where
  "streamChatMessage fetch request onChunk onStart s =
     (case fetch (request\<lparr>stream := Some True\<rparr>) of
        Inl e \<Rightarrow> (Inl e, s)
      | Inr r \<Rightarrow>
          if \<not> ok r then (Inl (start_error r), s)
          else (case body r of
                  None \<Rightarrow> (Inl (start_error r), s)
                | Some reads \<Rightarrow>
                    (let requestId = or_undefined (x_request_id r);
                         s1 = (case onStart of Some f \<Rightarrow> f requestId s | None \<Rightarrow> s)
                     in read_loop reads onChunk s1)))"

text \<open>
  The format the specification gives for a failed start:
  \<open>"{message} (status={n}, request_id={id})"\<close>, the id clause left out when absent.
\<close>

definition spec_start_error_format :: "string \<Rightarrow> nat \<Rightarrow> string option \<Rightarrow> string" where
  "spec_start_error_format msg n rid =
     msg @ '' (status='' @ show_nat n @
       (case rid of Some i \<Rightarrow> '', request_id='' @ i | None \<Rightarrow> []) @ '')''"

subsection \<open>Session Controller: strings read by the chat page\<close>

text \<open>
  \<open>String.prototype.trim\<close>: white space and line terminators among the code units
  below 256 (tab, line feed, vertical tab, form feed, carriage return, space, no-break
  space).
\<close>

definition is_space :: "char \<Rightarrow> bool" where
  "is_space c = (c \<in> set [CHR 0x09, CHR 0x0A, CHR 0x0B, CHR 0x0C, CHR 0x0D, CHR 0x20, CHR 0xA0])"

definition trim :: "string \<Rightarrow> string" where
  "trim t = rev (dropWhile is_space (rev (dropWhile is_space t)))"

text \<open>
  \<open>message.match(/request_id=([A-Za-z0-9_-]+)/i)\<close>: the leftmost position where the
  literal matches without regard to case and at least one character of the class
  follows; the result is group 1, the longest run of class characters there.
\<close>

definition is_id_char :: "char \<Rightarrow> bool" where
  "is_id_char c =
     (c \<in> set (''ABCDEFGHIJKLMNOPQRSTUVWXYZ'' @ ''abcdefghijklmnopqrstuvwxyz'' @
               ''0123456789'' @ ''_-''))"

definition ci_eq :: "char \<Rightarrow> char \<Rightarrow> bool" where
  "ci_eq p c =
     (c = p \<or>
      map_of (zip ''abcdefghijklmnopqrstuvwxyz'' ''ABCDEFGHIJKLMNOPQRSTUVWXYZ'') p = Some c \<or>
      map_of (zip ''ABCDEFGHIJKLMNOPQRSTUVWXYZ'' ''abcdefghijklmnopqrstuvwxyz'') p = Some c)"

fun ci_prefix :: "string \<Rightarrow> string \<Rightarrow> bool" where
  "ci_prefix [] t = True"
| "ci_prefix (p # ps) [] = False"
| "ci_prefix (p # ps) (c # cs) = (ci_eq p c \<and> ci_prefix ps cs)"

definition match_here :: "string \<Rightarrow> string option" where
  "match_here t =
     (if ci_prefix ''request_id='' t then
        (let g = takeWhile is_id_char (drop 11 t) in if g = [] then None else Some g)
      else None)"

fun match_request_id :: "string \<Rightarrow> string option" where
  "match_request_id [] = None"
| "match_request_id (c # cs) =
     (case match_here (c # cs) of Some g \<Rightarrow> Some g | None \<Rightarrow> match_request_id cs)"

subsection \<open>Session Controller: state of \<open>ChatPage\<close>\<close>

datatype role = user | assistant

record Message =
  role :: role
  content :: string
  sources :: "(string \<times> (string \<times> string) list) list option"

text \<open>
  The \<open>useState\<close> cells of the component.  \<open>calls\<close> is a ghost field: the requests
  handed to \<open>streamChatMessage\<close> so far, oldest first.
\<close>

record state =
  messages :: "Message list"
  input :: string
  isLoading :: bool
  sessionId :: "string option"
  requestId :: "string option"
  lastUserMessage :: "string option"
  errorMessage :: "string option"
  calls :: "chat_request list"

definition greeting :: Message where
  "greeting =
     \<lparr>role = assistant,
      content = ''Hello! I'' @ [CHR 0x27] @
        ''m your AI Real Estate Assistant. How can I help you find your dream property today?'',
      sources = None\<rparr>"

definition apology :: string where
  "apology = ''I apologize, but I encountered an error. Please try again.''"

definition initial :: state where
  "initial =
     \<lparr>messages = [greeting], input = [], isLoading = False, sessionId = None,
      requestId = None, lastUserMessage = None, errorMessage = None, calls = []\<rparr>"

text \<open>The updater of \<open>applyStreamError\<close> (lines 38--52).\<close>

definition apologize :: "Message list \<Rightarrow> Message list" where
  "apologize prev =
     (let updated = prev; lastIdx = int (length updated) - 1 in
      if lastIdx \<ge> 0 \<and> role (updated ! nat lastIdx) = assistant
         \<and> content (updated ! nat lastIdx) = []
      then updated[nat lastIdx := (updated ! nat lastIdx)\<lparr>content := apology\<rparr>]
      else updated @ [\<lparr>role = assistant, content = apology, sources = None\<rparr>])"

text \<open>\<open>error instanceof Error ? error.message : "Unknown error"\<close>.\<close>

definition thrown_message :: "thrown \<Rightarrow> string" where
  "thrown_message error = (case error of Error m \<Rightarrow> m | NonError \<Rightarrow> ''Unknown error'')"

definition applyStreamError :: "thrown \<Rightarrow> state \<Rightarrow> state" where
  "applyStreamError error s =
     (let msg = thrown_message error;
          s1 = s\<lparr>errorMessage := Some msg\<rparr>;
          s2 = (case match_request_id msg of
                  Some g \<Rightarrow> s1\<lparr>requestId := Some g\<rparr>
                | None \<Rightarrow> s1)
      in s2\<lparr>messages := apologize (messages s2)\<rparr>)"

text \<open>The updater of the \<open>onChunk\<close> callback (lines 81--88 and 155--162).\<close>

definition append_chunk :: "string \<Rightarrow> Message list \<Rightarrow> Message list" where
  "append_chunk chunk prev =
     (let updated = prev; lastIdx = int (length updated) - 1 in
      if lastIdx \<ge> 0 \<and> role (updated ! nat lastIdx) = assistant
      then updated[nat lastIdx :=
             (updated ! nat lastIdx)\<lparr>content := content (updated ! nat lastIdx) @ chunk\<rparr>]
      else updated)"

text \<open>The two callbacks, the same in \<open>handleSubmit\<close> and in the Retry button.\<close>

definition onChunk_cb :: "string \<Rightarrow> state \<Rightarrow> state" where
  "onChunk_cb chunk s = s\<lparr>messages := append_chunk chunk (messages s)\<rparr>"

definition onStart_cb :: "string option \<Rightarrow> state \<Rightarrow> state" where
  "onStart_cb rid s = (if truthy rid then s\<lparr>requestId := rid\<rparr> else s)"

text \<open>\<open>catch\<close> and \<open>finally\<close> after the awaited stream.\<close>

definition settle :: "(thrown + unit) \<times> state \<Rightarrow> state" where
  "settle rs =
     (case rs of
        (Inl e, s) \<Rightarrow> (applyStreamError e s)\<lparr>isLoading := False\<rparr>
      | (Inr _, s) \<Rightarrow> s\<lparr>isLoading := False\<rparr>)"

text \<open>
  \<open>handleSubmit\<close>, lines 63--76: \<open>randomUUID\<close> is what \<open>crypto.randomUUID()\<close> would
  return, \<open>None\<close> when \<open>crypto\<close> has no such function.
\<close>

definition submit_sid :: "string option \<Rightarrow> state \<Rightarrow> string option" where
  "submit_sid randomUUID s = (case sessionId s of Some i \<Rightarrow> Some i | None \<Rightarrow> randomUUID)"

definition submit_request :: "string option \<Rightarrow> state \<Rightarrow> chat_request" where
  "submit_request randomUUID s =
     \<lparr>message = trim (input s), session_id = submit_sid randomUUID s, stream = None\<rparr>"

definition submit_begin :: "string option \<Rightarrow> state \<Rightarrow> state" where
  "submit_begin randomUUID s =
     (let userMessage = trim (input s);
          s1 = s\<lparr>input := [],
                 messages := messages s @ [\<lparr>role = user, content = userMessage, sources = None\<rparr>],
                 isLoading := True,
                 errorMessage := None,
                 lastUserMessage := Some userMessage\<rparr>;
          sid = submit_sid randomUUID s;
          s2 = (if truthy sid \<and> \<not> truthy (sessionId s) then s1\<lparr>sessionId := sid\<rparr> else s1)
      in s2\<lparr>messages := messages s2 @ [\<lparr>role = assistant, content = [], sources = None\<rparr>],
             calls := calls s2 @ [submit_request randomUUID s]\<rparr>)"

definition handleSubmit ::
  "string option \<Rightarrow> (chat_request \<Rightarrow> thrown + response) \<Rightarrow> state \<Rightarrow> state" where
  "handleSubmit randomUUID fetch s =
     (if trim (input s) = [] \<or> isLoading s then s
      else settle (streamChatMessage fetch (submit_request randomUUID s)
                     onChunk_cb (Some onStart_cb) (submit_begin randomUUID s)))"

text \<open>
  The \<open>onClick\<close> of the Retry button (lines 147--170).  The button is rendered only
  while \<open>errorMessage\<close> is truthy.
\<close>

definition retry_request :: "string \<Rightarrow> state \<Rightarrow> chat_request" where
  "retry_request lastUser s = \<lparr>message = lastUser, session_id = sessionId s, stream = None\<rparr>"

definition retry_begin :: "string \<Rightarrow> state \<Rightarrow> state" where
  "retry_begin lastUser s =
     s\<lparr>errorMessage := None,
       isLoading := True,
       messages := messages s @ [\<lparr>role = assistant, content = [], sources = None\<rparr>],
       calls := calls s @ [retry_request lastUser s]\<rparr>"

definition retry :: "(chat_request \<Rightarrow> thrown + response) \<Rightarrow> state \<Rightarrow> state" where
  "retry fetch s =
     (if \<not> truthy (errorMessage s) then s
      else (case lastUserMessage s of
              None \<Rightarrow> s
            | Some lastUser \<Rightarrow>
                if lastUser = [] \<or> isLoading s then s
                else settle (streamChatMessage fetch (retry_request lastUser s)
                               onChunk_cb (Some onStart_cb) (retry_begin lastUser s))))"

subsection \<open>What one call of \<open>streamChatMessage\<close> does, read off the code\<close>

text \<open>
  The fragments passed to \<open>onChunk\<close> in order, the way the promise settles, and the
  argument of \<open>onStart\<close> if it is called: each is the code run with a recording callback.
\<close>

definition delivered :: "(chat_request \<Rightarrow> thrown + response) \<Rightarrow> chat_request \<Rightarrow> string list" where
  "delivered fetch request =
     snd (streamChatMessage fetch request (\<lambda>d acc. acc @ [d]) None [])"

definition outcome :: "(chat_request \<Rightarrow> thrown + response) \<Rightarrow> chat_request \<Rightarrow> thrown + unit" where
  "outcome fetch request = fst (streamChatMessage fetch request (\<lambda>d u. u) None ())"

definition started ::
  "(chat_request \<Rightarrow> thrown + response) \<Rightarrow> chat_request \<Rightarrow> string option option" where
  "started fetch request =
     snd (streamChatMessage fetch request (\<lambda>d a. a) (Some (\<lambda>rid a. Some rid)) None)"

text \<open>The payloads of the significant frames among the pieces of a split.\<close>

definition payloads :: "string list \<Rightarrow> string list" where
  "payloads ls = map (drop 6) (filter (prefix ''data: '') ls)"

definition until_done :: "string list \<Rightarrow> string list" where
  "until_done ds = takeWhile (\<lambda>d. d \<noteq> ''[DONE]'') ds"

text \<open>A service that answers every call with success and the given chunks.\<close>

definition serve_chunks :: "string option \<Rightarrow> string list \<Rightarrow> chat_request \<Rightarrow> thrown + response" where
  "serve_chunks rid cs =
     (\<lambda>q. Inr \<lparr>ok = True, status = 200, body = Some (map Chunk cs), text_body = Some [],
               x_request_id = rid\<rparr>)"

definition start_with ::
  "(string option \<Rightarrow> 's \<Rightarrow> 's) option \<Rightarrow> string option option \<Rightarrow> 's \<Rightarrow> 's" where
  "start_with g st s =
     (case g of None \<Rightarrow> s | Some h \<Rightarrow> (case st of None \<Rightarrow> s | Some rid \<Rightarrow> h rid s))"

subsection \<open>Services, scenarios and notions used in the properties\<close>

text \<open>A service that answers every call with the given response.\<close>

definition respond :: "response \<Rightarrow> chat_request \<Rightarrow> thrown + response" where
  "respond r q = Inr r"

text \<open>Scenario B of the specification: status 500, body \<open>boom\<close>, header id \<open>req-999\<close>.\<close>

definition boom_response :: response where
  "boom_response =
     \<lparr>ok = False, status = 500, body = None, text_body = Some ''boom'',
      x_request_id = Some ''req-999''\<rparr>"

definition hi_request :: chat_request where
  "hi_request = \<lparr>message = ''hi'', session_id = None, stream = None\<rparr>"

text \<open>The state in which the stream of an attempt ends, before \<open>catch\<close> and \<open>finally\<close>.\<close>

definition streamed :: "(chat_request \<Rightarrow> thrown + response) \<Rightarrow> chat_request \<Rightarrow> Message list \<Rightarrow> state \<Rightarrow> state" where
  "streamed fetch req xs s0 =
     (start_with (Some onStart_cb) (started fetch req) s0)
       \<lparr>messages := xs @ [\<lparr>role = assistant, content = concat (delivered fetch req),
                           sources = None\<rparr>]\<rparr>"

definition hello_world_chunks :: "string list" where
  "hello_world_chunks =
     [''data: Hello'' @ [CHR 0x0A, CHR 0x0A], ''data:  world'' @ [CHR 0x0A, CHR 0x0A],
      ''data: [DONE]'' @ [CHR 0x0A, CHR 0x0A]]"

text \<open>Scenario D: the fragment \<open>Partial\<close> arrives, then the next read fails.\<close>

definition partial_then_fail :: "chat_request \<Rightarrow> thrown + response" where
  "partial_then_fail q =
     Inr \<lparr>ok = True, status = 200,
          body = Some [Chunk (''data: Partial'' @ [CHR 0x0A, CHR 0x0A]),
                       ReadFailure (Error ''network error'')],
          text_body = Some [], x_request_id = None\<rparr>"

text \<open>A stream whose only frame has an empty payload, and whose next read fails.\<close>

definition empty_then_fail :: "chat_request \<Rightarrow> thrown + response" where
  "empty_then_fail q =
     Inr \<lparr>ok = True, status = 200,
          body = Some [Chunk (''data: '' @ [CHR 0x0A, CHR 0x0A]),
                       ReadFailure (Error ''network error'')],
          text_body = Some [], x_request_id = None\<rparr>"

text \<open>The state the page is in after Scenario B.\<close>

definition after_boom :: state where
  "after_boom = handleSubmit None (respond boom_response) (initial\<lparr>input := ''hi''\<rparr>)"

text \<open>A connection failure: \<open>fetch\<close> rejects.\<close>

definition refuse :: "chat_request \<Rightarrow> thrown + response" where
  "refuse q = Inl (Error ''Failed to fetch'')"

text \<open>
  The correlation id that one attempt yields, if any: the match of the pattern in the
  error text when the attempt fails, otherwise the non-empty header passed to \<open>onStart\<close>.
\<close>

definition attempt_request_id ::
  "(chat_request \<Rightarrow> thrown + response) \<Rightarrow> chat_request \<Rightarrow> string option" where
  "attempt_request_id f q =
     (let header = (case started f q of Some rid \<Rightarrow> or_undefined rid | None \<Rightarrow> None) in
      case outcome f q of
        Inl e \<Rightarrow> (case match_request_id (thrown_message e) of Some g \<Rightarrow> Some g | None \<Rightarrow> header)
      | Inr _ \<Rightarrow> header)"

text \<open>Scenario E: the retried stream delivers \<open>Fixed\<close> and the sentinel.\<close>

definition fixed_chunks :: "string list" where
  "fixed_chunks =
     [''data: Fixed'' @ [CHR 0x0A, CHR 0x0A] @ ''data: [DONE]'' @ [CHR 0x0A, CHR 0x0A]]"

text \<open>A state whose trailing entry is a user message, with an attempt in flight.\<close>

definition user_last :: state where
  "user_last =
     initial\<lparr>messages := [greeting, \<lparr>role = user, content = ''hi'', sources = None\<rparr>],
             isLoading := True\<rparr>"

text \<open>A chunk that ends where a frame ends: the last piece of its split is empty.\<close>

definition whole_frames :: "string \<Rightarrow> bool" where
  "whole_frames c = (last (split_nn c) = [])"

text \<open>The same text, \<open>data: Hello\<close> and the delimiter, read in one chunk and in two.\<close>

definition hello_one_chunk :: "string list" where
  "hello_one_chunk = [''data: Hello'' @ [CHR 0x0A, CHR 0x0A]]"

definition hello_two_chunks :: "string list" where
  "hello_two_chunks = [''data: Hel'', ''lo'' @ [CHR 0x0A, CHR 0x0A]]"

text \<open>
  Scenario A with more to read after the sentinel: a late frame and a failing read.
\<close>

definition late_after_done :: "chat_request \<Rightarrow> thrown + response" where
  "late_after_done q =
     Inr \<lparr>ok = True, status = 200,
          body = Some (map Chunk hello_world_chunks @
                       [Chunk (''data: late'' @ [CHR 0x0A, CHR 0x0A]),
                        ReadFailure (Error ''network error'')]),
          text_body = Some [], x_request_id = None\<rparr>"

subsection \<open>Reachable states of the page\<close>

text \<open>
  The states of the page: the initial render, then typing into the input, the
  synchronous part of a send or of a retry that passes its guard, and, while an attempt
  is in flight, each callback, the error handler and the final \<open>setIsLoading(false)\<close>.
  The relation does not ask the steps of an attempt to come in the order of one stream,
  so it holds every state the page can show and possibly more.
\<close>

inductive reachable :: "state \<Rightarrow> bool" where
  init: "reachable initial"
| typing: "reachable s \<Longrightarrow> reachable (s\<lparr>input := v\<rparr>)"
| send: "reachable s \<Longrightarrow> trim (input s) \<noteq> [] \<Longrightarrow> \<not> isLoading s \<Longrightarrow>
     reachable (submit_begin u s)"
| again: "reachable s \<Longrightarrow> truthy (errorMessage s) \<Longrightarrow> lastUserMessage s = Some l \<Longrightarrow>
     l \<noteq> [] \<Longrightarrow> \<not> isLoading s \<Longrightarrow> reachable (retry_begin l s)"
| start: "reachable s \<Longrightarrow> isLoading s \<Longrightarrow> reachable (onStart_cb rid s)"
| chunk: "reachable s \<Longrightarrow> isLoading s \<Longrightarrow> reachable (onChunk_cb c s)"
| failure: "reachable s \<Longrightarrow> isLoading s \<Longrightarrow> reachable (applyStreamError e s)"
| finish: "reachable s \<Longrightarrow> isLoading s \<Longrightarrow> reachable (s\<lparr>isLoading := False\<rparr>)"

section \<open>Properties\<close>

subsection \<open>Auxiliary facts\<close>

lemma fold_snoc: "fold (\<lambda>d acc. acc @ [d]) xs a = a @ xs"
  by (induction xs arbitrary: a) auto

lemma fold_ignore: "fold (\<lambda>d u. u) xs a = a"
  by (induction xs) auto

lemma for_lines_eq:
  "for_lines ls f s = (''[DONE]'' \<in> set (payloads ls), fold f (until_done (payloads ls)) s)"
  by (induction ls arbitrary: s) (auto simp: payloads_def until_done_def Let_def)

lemma read_loop_snoc:
  "snd (read_loop rs (\<lambda>d acc. acc @ [d]) a) = a @ snd (read_loop rs (\<lambda>d acc. acc @ [d]) [])"
proof (induction rs arbitrary: a)
  case Nil
  show ?case by simp
next
  case (Cons r rs)
  show ?case
  proof (cases r)
    case (Chunk c)
    show ?thesis
      using Cons.IH [of "a @ until_done (payloads (split_nn c))"]
            Cons.IH [of "until_done (payloads (split_nn c))"]
      by (simp add: Chunk for_lines_eq fold_snoc)
  next
    case (ReadFailure e)
    then show ?thesis by simp
  qed
qed

lemma read_loop_factor:
  "read_loop rs f s =
     (fst (read_loop rs (\<lambda>d u. u) ()),
      fold f (snd (read_loop rs (\<lambda>d acc. acc @ [d]) [])) s)"
proof (induction rs arbitrary: s)
  case Nil
  show ?case by simp
next
  case (Cons r rs)
  show ?case
  proof (cases r)
    case (Chunk c)
    show ?thesis
      using Cons.IH [of "fold f (until_done (payloads (split_nn c))) s"]
            read_loop_snoc [of rs "until_done (payloads (split_nn c))"]
      by (simp add: Chunk for_lines_eq fold_snoc fold_ignore)
  next
    case (ReadFailure e)
    then show ?thesis by simp
  qed
qed

lemma read_loop_ignore: "snd (read_loop rs (\<lambda>d a. a) x) = x"
  using read_loop_factor [of rs "\<lambda>d a. a" x] by (simp add: fold_ignore)

text \<open>
  Whatever the callbacks are, a call settles as \<open>outcome\<close> says, after \<open>onStart\<close> (when
  the stream starts) and one \<open>onChunk\<close> per delivered fragment, in order.
\<close>

lemma stream_factor:
  "streamChatMessage fetch req f g s =
     (outcome fetch req, fold f (delivered fetch req) (start_with g (started fetch req) s))"
proof (cases "fetch (req\<lparr>stream := Some True\<rparr>)")
  case (Inl e)
  then show ?thesis
    by (simp add: streamChatMessage_def outcome_def delivered_def started_def start_with_def
        split: option.splits)
next
  case (Inr r)
  show ?thesis
  proof (cases "ok r \<and> body r \<noteq> None")
    case False
    with Inr show ?thesis
      by (auto simp: streamChatMessage_def outcome_def delivered_def started_def start_with_def
          split: option.splits)
  next
    case True
    then obtain rs where rs: "body r = Some rs" and okr: "ok r" by auto
    show ?thesis
      using read_loop_factor [of rs f]
      by (simp add: streamChatMessage_def outcome_def delivered_def started_def start_with_def
          Inr rs okr read_loop_ignore split: option.splits)
  qed
qed

lemma append_chunk_snoc:
  "append_chunk c (xs @ [m]) =
     (if role m = assistant then xs @ [m\<lparr>content := content m @ c\<rparr>] else xs @ [m])"
  by (simp add: append_chunk_def Let_def nth_append)

lemma apologize_snoc:
  "apologize (xs @ [m]) =
     (if role m = assistant \<and> content m = [] then xs @ [m\<lparr>content := apology\<rparr>]
      else xs @ [m, \<lparr>role = assistant, content = apology, sources = None\<rparr>])"
  by (simp add: apologize_def Let_def nth_append)

lemma fold_onChunk_cb:
  assumes "messages s = xs @ [m]" and "role m = assistant"
  shows "fold onChunk_cb fs s = s\<lparr>messages := xs @ [m\<lparr>content := content m @ concat fs\<rparr>]\<rparr>"
  using assms
proof (induction fs arbitrary: s m)
  case Nil
  then show ?case by simp
next
  case (Cons f fs)
  have "messages (onChunk_cb f s) = xs @ [m\<lparr>content := content m @ f\<rparr>]"
    using Cons.prems by (simp add: onChunk_cb_def append_chunk_snoc)
  from Cons.IH [OF this] Cons.prems show ?case
    by (simp add: onChunk_cb_def append_chunk_snoc)
qed

lemma fold_onChunk_isLoading: "isLoading (fold onChunk_cb fs s) = isLoading s"
  by (induction fs arbitrary: s) (simp_all add: onChunk_cb_def)

lemma all_dropWhile_iff: "(\<forall>x \<in> set (dropWhile P t). P x) \<longleftrightarrow> dropWhile P t = []"
proof
  assume a: "\<forall>x \<in> set (dropWhile P t). P x"
  show "dropWhile P t = []"
  proof (rule ccontr)
    assume n: "dropWhile P t \<noteq> []"
    then have "\<not> P (hd (dropWhile P t))" by (rule hd_dropWhile)
    moreover have "hd (dropWhile P t) \<in> set (dropWhile P t)" using n by simp
    ultimately show False using a by blast
  qed
qed (auto dest: set_dropWhileD)

lemma trim_empty_iff: "trim t = [] \<longleftrightarrow> (\<forall>c \<in> set t. is_space c)"
  by (simp add: trim_def dropWhile_eq_Nil_conv all_dropWhile_iff)

lemma or_undefined_truthy: "truthy rid \<Longrightarrow> or_undefined rid = rid"
  by (auto simp: truthy_def or_undefined_def split: option.splits if_splits)

lemma truthy_simps: "\<not> truthy None" "truthy (Some v) \<longleftrightarrow> v \<noteq> []"
  by (simp_all add: truthy_def or_undefined_def)

lemma or_undefined_falsy: "\<not> truthy rid \<Longrightarrow> or_undefined rid = None"
  by (simp add: truthy_def)

lemma start_with_cb_fields:
  "messages (start_with (Some onStart_cb) st s) = messages s"
  "isLoading (start_with (Some onStart_cb) st s) = isLoading s"
  "errorMessage (start_with (Some onStart_cb) st s) = errorMessage s"
  "sessionId (start_with (Some onStart_cb) st s) = sessionId s"
  "lastUserMessage (start_with (Some onStart_cb) st s) = lastUserMessage s"
  "calls (start_with (Some onStart_cb) st s) = calls s"
  "input (start_with (Some onStart_cb) st s) = input s"
  "requestId (start_with (Some onStart_cb) st s) =
     (case st of Some rid \<Rightarrow> (if truthy rid then rid else requestId s) | None \<Rightarrow> requestId s)"
  by (simp_all add: start_with_def onStart_cb_def split: option.splits)

lemma attempt_state:
  assumes "messages s0 = xs @ [\<lparr>role = assistant, content = [], sources = None\<rparr>]"
  shows "streamChatMessage fetch req onChunk_cb (Some onStart_cb) s0 =
           (outcome fetch req,
            (start_with (Some onStart_cb) (started fetch req) s0)
              \<lparr>messages := xs @ [\<lparr>role = assistant, content = concat (delivered fetch req),
                                  sources = None\<rparr>]\<rparr>)"
proof -
  let ?s1 = "start_with (Some onStart_cb) (started fetch req) s0"
  have "messages ?s1 = xs @ [\<lparr>role = assistant, content = [], sources = None\<rparr>]"
    using assms by (simp add: start_with_cb_fields)
  from fold_onChunk_cb [OF this, of "delivered fetch req"] show ?thesis
    by (simp add: stream_factor)
qed

lemma submit_begin_fields:
  "messages (submit_begin u s) =
     messages s @ [\<lparr>role = user, content = trim (input s), sources = None\<rparr>,
                   \<lparr>role = assistant, content = [], sources = None\<rparr>]"
  "isLoading (submit_begin u s) = True"
  "errorMessage (submit_begin u s) = None"
  "lastUserMessage (submit_begin u s) = Some (trim (input s))"
  "calls (submit_begin u s) = calls s @ [submit_request u s]"
  "requestId (submit_begin u s) = requestId s"
  "input (submit_begin u s) = []"
  "sessionId (submit_begin u s) =
     (if truthy (submit_sid u s) \<and> \<not> truthy (sessionId s) then submit_sid u s else sessionId s)"
  by (simp_all add: submit_begin_def Let_def)

lemma retry_begin_fields:
  "messages (retry_begin l s) = messages s @ [\<lparr>role = assistant, content = [], sources = None\<rparr>]"
  "isLoading (retry_begin l s) = True"
  "errorMessage (retry_begin l s) = None"
  "lastUserMessage (retry_begin l s) = lastUserMessage s"
  "calls (retry_begin l s) = calls s @ [retry_request l s]"
  "requestId (retry_begin l s) = requestId s"
  "input (retry_begin l s) = input s"
  "sessionId (retry_begin l s) = sessionId s"
  by (simp_all add: retry_begin_def)

lemma handleSubmit_run:
  assumes "trim (input s) \<noteq> []" and "\<not> isLoading s"
  shows "handleSubmit u f s =
           settle (outcome f (submit_request u s),
                   streamed f (submit_request u s)
                     (messages s @ [\<lparr>role = user, content = trim (input s), sources = None\<rparr>])
                     (submit_begin u s))"
  using assms attempt_state [of "submit_begin u s"
      "messages s @ [\<lparr>role = user, content = trim (input s), sources = None\<rparr>]" f "submit_request u s"]
  by (simp add: handleSubmit_def submit_begin_fields streamed_def)

lemma retry_run:
  assumes "truthy (errorMessage s)" and "lastUserMessage s = Some l" and "l \<noteq> []"
    and "\<not> isLoading s"
  shows "retry f s =
           settle (outcome f (retry_request l s),
                   streamed f (retry_request l s) (messages s) (retry_begin l s))"
  using assms attempt_state [of "retry_begin l s" "messages s" f "retry_request l s"]
  by (simp add: retry_def retry_begin_fields streamed_def)

lemma streamed_fields:
  "messages (streamed f q xs s0) =
     xs @ [\<lparr>role = assistant, content = concat (delivered f q), sources = None\<rparr>]"
  "isLoading (streamed f q xs s0) = isLoading s0"
  "errorMessage (streamed f q xs s0) = errorMessage s0"
  "sessionId (streamed f q xs s0) = sessionId s0"
  "lastUserMessage (streamed f q xs s0) = lastUserMessage s0"
  "calls (streamed f q xs s0) = calls s0"
  "input (streamed f q xs s0) = input s0"
  "requestId (streamed f q xs s0) =
     (case started f q of Some rid \<Rightarrow> (if truthy rid then rid else requestId s0)
      | None \<Rightarrow> requestId s0)"
  by (simp_all add: streamed_def start_with_cb_fields)

lemma settle_ok_fields:
  "messages (settle (Inr u, s)) = messages s"
  "isLoading (settle (Inr u, s)) = False"
  "errorMessage (settle (Inr u, s)) = errorMessage s"
  "sessionId (settle (Inr u, s)) = sessionId s"
  "lastUserMessage (settle (Inr u, s)) = lastUserMessage s"
  "calls (settle (Inr u, s)) = calls s"
  "requestId (settle (Inr u, s)) = requestId s"
  by (simp_all add: settle_def)

lemma settle_error_fields:
  "messages (settle (Inl e, s)) = apologize (messages s)"
  "isLoading (settle (Inl e, s)) = False"
  "errorMessage (settle (Inl e, s)) = Some (thrown_message e)"
  "sessionId (settle (Inl e, s)) = sessionId s"
  "lastUserMessage (settle (Inl e, s)) = lastUserMessage s"
  "calls (settle (Inl e, s)) = calls s"
  "requestId (settle (Inl e, s)) =
     (case match_request_id (thrown_message e) of Some g \<Rightarrow> Some g | None \<Rightarrow> requestId s)"
  by (simp_all add: settle_def applyStreamError_def Let_def split: option.splits)

lemma handleSubmit_failed_partial:
  assumes "trim (input s) \<noteq> []" and "\<not> isLoading s"
    and "outcome f (submit_request u s) = Inl e"
    and "concat (delivered f (submit_request u s)) \<noteq> []"
  shows "messages (handleSubmit u f s) =
           messages s @
             [\<lparr>role = user, content = trim (input s), sources = None\<rparr>,
              \<lparr>role = assistant, content = concat (delivered f (submit_request u s)), sources = None\<rparr>,
              \<lparr>role = assistant, content = apology, sources = None\<rparr>]"
  using assms
  by (simp add: handleSubmit_run settle_error_fields streamed_fields apologize_snoc
      del: append_assoc flip: append_assoc)

lemma retry_failed_partial:
  assumes "truthy (errorMessage s)" and "lastUserMessage s = Some l" and "l \<noteq> []"
    and "\<not> isLoading s"
    and "outcome f (retry_request l s) = Inl e"
    and "concat (delivered f (retry_request l s)) \<noteq> []"
  shows "messages (retry f s) =
           messages s @
             [\<lparr>role = assistant, content = concat (delivered f (retry_request l s)), sources = None\<rparr>,
              \<lparr>role = assistant, content = apology, sources = None\<rparr>]"
  using assms
  by (simp add: retry_run settle_error_fields streamed_fields apologize_snoc)

lemma trim_hi: "trim ''hi'' = ''hi''"
  by (simp add: trim_def is_space_def)

lemma submit_hi: "submit_request None (initial\<lparr>input := ''hi''\<rparr>) = hi_request"
  by (simp add: submit_request_def submit_sid_def initial_def hi_request_def trim_hi)

lemma hi_guard: "input (initial\<lparr>input := ''hi''\<rparr>) = ''hi''"
  "\<not> isLoading (initial\<lparr>input := ''hi''\<rparr>)"
  "messages (initial\<lparr>input := ''hi''\<rparr>) = [greeting]"
  by (simp_all add: initial_def)

lemma hi_submit_run:
  "handleSubmit None f (initial\<lparr>input := ''hi''\<rparr>) =
     settle (outcome f hi_request,
             streamed f hi_request [greeting, \<lparr>role = user, content = ''hi'', sources = None\<rparr>]
               (submit_begin None (initial\<lparr>input := ''hi''\<rparr>)))"
  using handleSubmit_run [of "initial\<lparr>input := ''hi''\<rparr>" None f]
  by (simp add: hi_guard trim_hi submit_hi)

lemma boom_run:
  "outcome (respond boom_response) q = Inl (Error ''boom (request_id=req-999)'')"
  "delivered (respond boom_response) q = []"
  "started (respond boom_response) q = None"
  by (simp_all add: outcome_def delivered_def started_def streamChatMessage_def respond_def
      boom_response_def start_error_def or_undefined_def)

lemma refuse_run:
  "outcome refuse q = Inl (Error ''Failed to fetch'')"
  "delivered refuse q = []"
  "started refuse q = None"
  by (simp_all add: outcome_def delivered_def started_def streamChatMessage_def refuse_def)

lemma match_boom: "match_request_id ''boom (request_id=req-999)'' = Some ''req-999''"
  by code_simp

lemma match_refused: "match_request_id ''Failed to fetch'' = None"
  by code_simp

lemma hi_begin:
  "submit_begin None (initial\<lparr>input := ''hi''\<rparr>) =
     \<lparr>messages = [greeting, \<lparr>role = user, content = ''hi'', sources = None\<rparr>,
                  \<lparr>role = assistant, content = [], sources = None\<rparr>],
      input = [], isLoading = True, sessionId = None, requestId = None,
      lastUserMessage = Some ''hi'', errorMessage = None, calls = [hi_request]\<rparr>"
  by (simp add: submit_begin_def submit_request_def hi_request_def submit_sid_def truthy_simps
      trim_hi Let_def initial_def)

lemma after_boom_eq:
  "after_boom =
     \<lparr>messages = [greeting, \<lparr>role = user, content = ''hi'', sources = None\<rparr>,
                  \<lparr>role = assistant, content = apology, sources = None\<rparr>],
      input = [], isLoading = False, sessionId = None, requestId = Some ''req-999'',
      lastUserMessage = Some ''hi'', errorMessage = Some ''boom (request_id=req-999)'',
      calls = [hi_request]\<rparr>"
  using apologize_snoc [of "[greeting, \<lparr>role = user, content = ''hi'', sources = None\<rparr>]"
      "\<lparr>role = assistant, content = [], sources = None\<rparr>"]
  by (simp add: after_boom_def hi_submit_run boom_run hi_begin settle_def applyStreamError_def
      thrown_message_def match_boom streamed_def start_with_def Let_def
      del: match_request_id.simps)

lemma hw_delivered: "delivered (serve_chunks None hello_world_chunks) q = [''Hello'', '' world'']"
  by (simp add: delivered_def streamChatMessage_def serve_chunks_def hello_world_chunks_def or_undefined_def)

lemma hw_outcome: "outcome (serve_chunks None hello_world_chunks) q = Inr ()"
  by (simp add: outcome_def streamChatMessage_def serve_chunks_def hello_world_chunks_def or_undefined_def)

lemma empty_then_fail_run:
  "delivered empty_then_fail q = [[]]" "outcome empty_then_fail q = Inl (Error ''network error'')"
  by (simp_all add: delivered_def outcome_def streamChatMessage_def empty_then_fail_def
      or_undefined_def)

lemma partial_then_fail_run:
  "delivered partial_then_fail q = [''Partial'']"
  "outcome partial_then_fail q = Inl (Error ''network error'')"
  by (simp_all add: delivered_def outcome_def streamChatMessage_def partial_then_fail_def
      or_undefined_def)

lemma initial_fields:
  "messages initial = [greeting]" "calls initial = []" "sessionId initial = None"
  "requestId initial = None" "\<not> isLoading initial" "errorMessage initial = None"
  "lastUserMessage initial = None"
  by (simp_all add: initial_def)

lemma fixed_run:
  "delivered (serve_chunks rid fixed_chunks) q = [''Fixed'']"
  "outcome (serve_chunks rid fixed_chunks) q = Inr ()"
  by (simp_all add: delivered_def outcome_def streamChatMessage_def serve_chunks_def
      fixed_chunks_def)

lemma applyStreamError_messages:
  "messages (applyStreamError e s) = apologize (messages s)"
  by (simp add: applyStreamError_def Let_def split: option.splits)

lemma filter_user_apologize:
  "filter (\<lambda>m. role m = user) (apologize xs) = filter (\<lambda>m. role m = user) xs"
proof (cases xs rule: rev_cases)
  case Nil
  then show ?thesis by (simp add: apologize_def)
next
  case (snoc ys m)
  then show ?thesis by (simp add: apologize_snoc)
qed

lemma failed_send_fields:
  assumes "trim (input s) \<noteq> []" and "\<not> isLoading s" and "randomUUID \<noteq> Some []"
    and "outcome f (submit_request randomUUID s) = Inl e"
  shows "sessionId (handleSubmit randomUUID f s) = submit_sid randomUUID s"
    and "lastUserMessage (handleSubmit randomUUID f s) = Some (trim (input s))"
    and "errorMessage (handleSubmit randomUUID f s) = Some (thrown_message e)"
    and "\<not> isLoading (handleSubmit randomUUID f s)"
    and "calls (handleSubmit randomUUID f s) = calls s @ [submit_request randomUUID s]"
  using assms
  by (cases randomUUID;
      auto simp: handleSubmit_run settle_error_fields streamed_fields submit_begin_fields
        submit_sid_def truthy_simps split: option.splits)+

lemma cons_first_nonempty: "cons_first c ps \<noteq> []"
  by (cases ps) simp_all

lemma split_nn_nonempty: "split_nn t \<noteq> []"
  by (induction t rule: split_nn.induct) (simp_all add: cons_first_nonempty)

lemma cons_first_last:
  "ps \<noteq> [] \<Longrightarrow> last (cons_first c ps) = [] \<Longrightarrow> length ps \<ge> 2 \<and> last ps = []"
  by (cases ps) (auto split: if_splits simp: Suc_le_eq)

lemma cons_first_butlast_append:
  "length ps \<ge> 2 \<Longrightarrow> cons_first c (butlast ps @ qs) = butlast (cons_first c ps) @ qs"
  by (cases ps) (auto split: if_splits)

lemma split_nn_append:
  "last (split_nn a) = [] \<Longrightarrow> split_nn (a @ b) = butlast (split_nn a) @ split_nn b"
proof (induction a rule: split_nn.induct)
  case 1
  show ?case by simp
next
  case (2 c)
  then show ?case by simp
next
  case (3 c d cs)
  show ?case
  proof (cases "c = CHR 0x0A \<and> d = CHR 0x0A")
    case True
    with 3 show ?thesis by (simp add: split_nn_nonempty)
  next
    case False
    with "3.prems" have l: "last (cons_first c (split_nn (d # cs))) = []" by auto
    from cons_first_last [OF split_nn_nonempty l]
    have len: "length (split_nn (d # cs)) \<ge> 2" and la: "last (split_nn (d # cs)) = []"
      by auto
    from "3.IH"(2) False la have "split_nn ((d # cs) @ b) = butlast (split_nn (d # cs)) @ split_nn b"
      by auto
    with False len show ?thesis
      by (auto simp: cons_first_butlast_append)
  qed
qed

lemma payloads_append: "payloads (xs @ ys) = payloads xs @ payloads ys"
  by (simp add: payloads_def)

lemma payloads_butlast: "last ls = [] \<Longrightarrow> payloads (butlast ls) = payloads ls"
proof (cases ls rule: rev_cases)
  case Nil
  then show ?thesis by simp
next
  case (snoc ys y)
  assume "last ls = []"
  with snoc show ?thesis by (simp add: payloads_def)
qed

lemma payloads_whole_frames:
  "\<forall>c \<in> set cs. whole_frames c \<Longrightarrow>
     concat (map (\<lambda>c. payloads (split_nn c)) cs) = payloads (split_nn (concat cs))"
proof (induction cs)
  case Nil
  show ?case by (simp add: payloads_def)
next
  case (Cons c cs)
  then have w: "last (split_nn c) = []" by (simp add: whole_frames_def)
  show ?case
    using Cons by (simp add: split_nn_append [OF w] payloads_append payloads_butlast [OF w])
qed

lemma until_done_all: "''[DONE]'' \<notin> set xs \<Longrightarrow> until_done xs = xs"
  by (auto simp: until_done_def takeWhile_eq_all_conv)

lemma until_done_append:
  "until_done (xs @ ys) =
     (if ''[DONE]'' \<in> set xs then until_done xs else xs @ until_done ys)"
  by (auto simp: until_done_def takeWhile_append takeWhile_eq_all_conv)

lemma read_loop_chunks:
  "snd (read_loop (map Chunk cs) (\<lambda>d acc. acc @ [d]) []) =
     until_done (concat (map (\<lambda>c. payloads (split_nn c)) cs))"
proof (induction cs)
  case Nil
  show ?case by (simp add: until_done_def)
next
  case (Cons c cs)
  show ?case
  proof (cases "''[DONE]'' \<in> set (payloads (split_nn c))")
    case True
    then show ?thesis
      by (simp add: for_lines_eq fold_snoc until_done_append)
  next
    case False
    then have u: "until_done (payloads (split_nn c)) = payloads (split_nn c)"
      by (rule until_done_all)
    show ?thesis
      using Cons False read_loop_snoc [of "map Chunk cs" "payloads (split_nn c)"]
      by (simp add: for_lines_eq fold_snoc until_done_append u)
  qed
qed

lemma delivered_chunks:
  "delivered (serve_chunks rid cs) q = until_done (concat (map (\<lambda>c. payloads (split_nn c)) cs))"
  by (simp add: delivered_def streamChatMessage_def serve_chunks_def read_loop_chunks)

lemma read_loop_sentinel:
  assumes "''[DONE]'' \<in> set (concat (map (\<lambda>c. payloads (split_nn c)) cs))"
  shows "read_loop (map Chunk cs @ rest) f s =
           (Inr (), fold f (until_done (concat (map (\<lambda>c. payloads (split_nn c)) cs))) s)"
  using assms
proof (induction cs arbitrary: s)
  case Nil
  then show ?case by simp
next
  case (Cons c cs)
  show ?case
  proof (cases "''[DONE]'' \<in> set (payloads (split_nn c))")
    case True
    then show ?thesis
      by (simp add: for_lines_eq until_done_append)
  next
    case False
    with Cons.prems have "''[DONE]'' \<in> set (concat (map (\<lambda>c. payloads (split_nn c)) cs))"
      by simp
    from Cons.IH [OF this] False show ?thesis
      by (simp add: for_lines_eq until_done_append until_done_all)
  qed
qed

lemma until_done_sentinel: "''[DONE]'' \<notin> set fs \<Longrightarrow> until_done (fs @ ''[DONE]'' # after) = fs"
  by (simp add: until_done_append until_done_all) (simp add: until_done_def)

lemma sentinel_run:
  assumes "fetch (q\<lparr>stream := Some True\<rparr>) = Inr r" and "ok r"
    and "body r = Some (map Chunk cs @ rest)"
    and "concat (map (\<lambda>c. payloads (split_nn c)) cs) = fs @ ''[DONE]'' # after"
    and "''[DONE]'' \<notin> set fs"
  shows "delivered fetch q = fs" and "outcome fetch q = Inr ()"
proof -
  have d: "''[DONE]'' \<in> set (concat (map (\<lambda>c. payloads (split_nn c)) cs))"
    unfolding assms(4) by simp
  have u: "until_done (concat (map (\<lambda>c. payloads (split_nn c)) cs)) = fs"
    unfolding assms(4) using assms(5) by (rule until_done_sentinel)
  show "delivered fetch q = fs"
    using assms(1-3) by (simp add: delivered_def streamChatMessage_def read_loop_sentinel [OF d] u fold_snoc)
  show "outcome fetch q = Inr ()"
    using assms(1-3) by (simp add: outcome_def streamChatMessage_def read_loop_sentinel [OF d])
qed

lemma handleSubmit_failed_empty:
  assumes "trim (input s) \<noteq> []" and "\<not> isLoading s"
    and "outcome f (submit_request u s) = Inl e"
    and "concat (delivered f (submit_request u s)) = []"
  shows "messages (handleSubmit u f s) =
           messages s @
             [\<lparr>role = user, content = trim (input s), sources = None\<rparr>,
              \<lparr>role = assistant, content = apology, sources = None\<rparr>]"
  using assms(1-3)
    apologize_snoc [of "messages s @ [\<lparr>role = user, content = trim (input s), sources = None\<rparr>]"
      "\<lparr>role = assistant, content = [], sources = None\<rparr>"]
  by (simp add: handleSubmit_run settle_error_fields streamed_fields assms(4))

lemma retry_failed_empty:
  assumes "truthy (errorMessage s)" and "lastUserMessage s = Some l" and "l \<noteq> []"
    and "\<not> isLoading s"
    and "outcome f (retry_request l s) = Inl e"
    and "concat (delivered f (retry_request l s)) = []"
  shows "messages (retry f s) =
           messages s @ [\<lparr>role = assistant, content = apology, sources = None\<rparr>]"
  using assms(1-5)
    apologize_snoc [of "messages s" "\<lparr>role = assistant, content = [], sources = None\<rparr>"]
  by (simp add: retry_run settle_error_fields streamed_fields assms(6))



lemma ci_prefix_append: "ci_prefix p x \<Longrightarrow> ci_prefix p (x @ y)"
  by (induction p x rule: ci_prefix.induct) auto











lemma hd_append_chunk:
  "2 \<le> length xs \<Longrightarrow> hd (append_chunk c xs) = hd xs \<and> length (append_chunk c xs) = length xs"
  by (cases xs) (auto simp: append_chunk_def Let_def nat_diff_distrib' split: nat.splits)

lemma hd_apologize:
  "2 \<le> length xs \<Longrightarrow> hd (apologize xs) = hd xs \<and> length xs \<le> length (apologize xs)"
  by (cases xs) (auto simp: apologize_def Let_def split: nat.splits)

lemma applyStreamError_isLoading: "isLoading (applyStreamError e s) = isLoading s"
  by (simp add: applyStreamError_def Let_def split: option.splits)

lemma onStart_cb_fields:
  "messages (onStart_cb rid s) = messages s" "isLoading (onStart_cb rid s) = isLoading s"
  by (simp_all add: onStart_cb_def)

lemma reachable_greeting:
  "reachable s \<Longrightarrow>
     messages s \<noteq> [] \<and> hd (messages s) = greeting \<and> (isLoading s \<longrightarrow> 2 \<le> length (messages s))"
proof (induction rule: reachable.induct)
  case init
  show ?case by (simp add: initial_def)
next
  case (typing s v)
  then show ?case by simp
next
  case (send s u)
  then show ?case by (simp add: submit_begin_fields)
next
  case (again s l)
  then show ?case by (cases "messages s") (simp_all add: retry_begin_fields)
next
  case (start s rid)
  then show ?case by (simp add: onStart_cb_fields)
next
  case (chunk s c)
  then have l: "2 \<le> length (messages s)" by simp
  from hd_append_chunk [OF l, of c] chunk.IH show ?case
    by (auto simp: onChunk_cb_def)
next
  case (failure s e)
  then have l: "2 \<le> length (messages s)" by simp
  from hd_apologize [OF l] failure.IH show ?case
    by (auto simp: applyStreamError_messages applyStreamError_isLoading)
next
  case (finish s)
  then show ?case by simp
qed

lemma reachable_fold:
  "reachable s \<Longrightarrow> isLoading s \<Longrightarrow> reachable (fold onChunk_cb ds s)"
proof (induction ds arbitrary: s)
  case Nil
  then show ?case by simp
next
  case (Cons d ds)
  have "reachable (onChunk_cb d s)" using Cons.prems by (rule reachable.chunk)
  moreover have "isLoading (onChunk_cb d s)" using Cons.prems by (simp add: onChunk_cb_def)
  ultimately show ?case using Cons.IH by simp
qed

lemma reachable_attempt:
  assumes "reachable s0" and "isLoading s0"
  shows "reachable (settle (streamChatMessage f q onChunk_cb (Some onStart_cb) s0))"
proof -
  let ?s1 = "start_with (Some onStart_cb) (started f q) s0"
  have r1: "reachable ?s1" and l1: "isLoading ?s1"
    using assms by (auto simp: start_with_def onStart_cb_fields split: option.splits
        intro: reachable.start)
  let ?s2 = "fold onChunk_cb (delivered f q) ?s1"
  have r2: "reachable ?s2" using r1 l1 by (rule reachable_fold)
  have l2: "isLoading ?s2" using l1 by (simp add: fold_onChunk_isLoading)
  have "reachable (settle (outcome f q, ?s2))"
  proof (cases "outcome f q")
    case (Inl e)
    have "reachable (applyStreamError e ?s2)" using r2 l2 by (rule reachable.failure)
    moreover have "isLoading (applyStreamError e ?s2)"
      using l2 by (simp add: applyStreamError_isLoading)
    ultimately have "reachable ((applyStreamError e ?s2)\<lparr>isLoading := False\<rparr>)"
      by (rule reachable.finish)
    with Inl show ?thesis by (simp add: settle_def)
  next
    case (Inr v)
    have "reachable (?s2\<lparr>isLoading := False\<rparr>)" using r2 l2 by (rule reachable.finish)
    with Inr show ?thesis by (simp add: settle_def)
  qed
  then show ?thesis by (simp add: stream_factor)
qed

lemma reachable_handleSubmit: "reachable s \<Longrightarrow> reachable (handleSubmit u f s)"
proof (cases "trim (input s) = [] \<or> isLoading s")
  case True
  assume "reachable s"
  with True show ?thesis by (auto simp: handleSubmit_def)
next
  case False
  assume r: "reachable s"
  with False have "reachable (submit_begin u s)" by (auto intro: reachable.send)
  from reachable_attempt [OF this] False show ?thesis
    by (simp add: handleSubmit_def submit_begin_fields)
qed

lemma reachable_retry: "reachable s \<Longrightarrow> reachable (retry f s)"
proof -
  assume r: "reachable s"
  show ?thesis
  proof (cases "truthy (errorMessage s) \<and> (\<exists>l. lastUserMessage s = Some l \<and> l \<noteq> []) \<and> \<not> isLoading s")
    case False
    with r show ?thesis by (auto simp: retry_def split: option.splits)
  next
    case True
    then obtain l where l: "lastUserMessage s = Some l" "l \<noteq> []" by auto
    from r True l have "reachable (retry_begin l s)" by (auto intro: reachable.again)
    from reachable_attempt [OF this] True l show ?thesis
      by (simp add: retry_def retry_begin_fields)
  qed
qed

subsection \<open>Failure to start the stream\<close>

text \<open>
  C1, as stated, at Scenario B: the error of a status-500 response with body \<open>boom\<close> and
  header id \<open>req-999\<close> is \<open>boom (request_id=req-999)\<close>, which is not the message
  \<open>boom (status=500, request_id=req-999)\<close> that the stated format gives.
\<close>

theorem C1_status_not_in_message:
  "outcome (respond boom_response) hi_request = Inl (Error ''boom (request_id=req-999)'') \<and>
   outcome (respond boom_response) hi_request
     \<noteq> Inl (Error (spec_start_error_format ''boom'' 500 (Some ''req-999'')))"
  by (simp add: outcome_def streamChatMessage_def respond_def boom_response_def
      start_error_def or_undefined_def spec_start_error_format_def show_nat.simps)

text \<open>
  C1, amended: when the response is not a success or has no body, \<open>streamChatMessage\<close>
  fails at once, without calling \<open>onStart\<close> or \<open>onChunk\<close>, with an \<open>Error\<close> whose message
  is the server text, or \<open>Failed to start stream\<close> when that text is empty or cannot be
  read, followed by \<open> (request_id={id})\<close> when the header \<open>X-Request-ID\<close> is present and
  not empty.  The HTTP status is not part of the message.
\<close>

theorem C1_start_failure_message:
  assumes "fetch (req\<lparr>stream := Some True\<rparr>) = Inr r"
    and "\<not> ok r \<or> body r = None"
  shows "streamChatMessage fetch req onChunk onStart s =
           (Inl (Error
              ((case text_body r of
                  None \<Rightarrow> ''Failed to start stream''
                | Some t \<Rightarrow> if t = [] then ''Failed to start stream'' else t) @
               (case x_request_id r of
                  None \<Rightarrow> []
                | Some i \<Rightarrow> if i = [] then [] else '' (request_id='' @ i @ '')''))), s)"
  using assms
  by (auto simp: streamChatMessage_def start_error_def or_undefined_def Let_def
      split: option.splits)

theorem C1_start_failure_message_witness:
  "respond boom_response (hi_request\<lparr>stream := Some True\<rparr>) = Inr boom_response \<and>
   \<not> ok boom_response \<and>
   streamChatMessage (respond boom_response) hi_request onChunk_cb (Some onStart_cb) initial
     = (Inl (Error ''boom (request_id=req-999)''), initial)"
  using C1_start_failure_message [of "respond boom_response" hi_request boom_response
      onChunk_cb "Some onStart_cb" initial]
  by (simp add: respond_def boom_response_def)

subsection \<open>Fragments accumulate in the trailing assistant message\<close>

text \<open>
  C2: when a send passes its guard and the stream ends without failure, the transcript is
  the old one followed by the user message and one assistant message whose content is the
  concatenation, in delivery order, of the fragments passed to \<open>onChunk\<close>; the controller
  is then idle (not busy, no error).  In particular, when the frames read from the body
  carry the payloads \<open>f1 \<dots> fn\<close>, none of them the sentinel, and then \<open>[DONE]\<close>,
  exactly \<open>f1 \<dots> fn\<close> are delivered and the content is their concatenation, whatever
  follows the sentinel in the body: later frames and later reads, failing or not, are
  never looked at.  The witness is Scenario A: \<open>Hello\<close>, \<open> world\<close> and \<open>[DONE]\<close> give
  \<open>Hello world\<close>.
\<close>

theorem C2_fragments_concatenated:
  assumes "trim (input s) \<noteq> []" and "\<not> isLoading s"
  shows "(outcome fetch (submit_request randomUUID s) = Inr () \<longrightarrow>
            messages (handleSubmit randomUUID fetch s) =
              messages s @
                [\<lparr>role = user, content = trim (input s), sources = None\<rparr>,
                 \<lparr>role = assistant,
                  content = concat (delivered fetch (submit_request randomUUID s)),
                  sources = None\<rparr>]
            \<and> \<not> isLoading (handleSubmit randomUUID fetch s)
            \<and> errorMessage (handleSubmit randomUUID fetch s) = None)
         \<and> (fetch ((submit_request randomUUID s)\<lparr>stream := Some True\<rparr>) = Inr r \<longrightarrow> ok r \<longrightarrow>
            body r = Some (map Chunk cs @ rest) \<longrightarrow>
            concat (map (\<lambda>c. payloads (split_nn c)) cs) = fs @ ''[DONE]'' # after \<longrightarrow>
            ''[DONE]'' \<notin> set fs \<longrightarrow>
              delivered fetch (submit_request randomUUID s) = fs
              \<and> messages (handleSubmit randomUUID fetch s) =
                  messages s @
                    [\<lparr>role = user, content = trim (input s), sources = None\<rparr>,
                     \<lparr>role = assistant, content = concat fs, sources = None\<rparr>]
              \<and> \<not> isLoading (handleSubmit randomUUID fetch s)
              \<and> errorMessage (handleSubmit randomUUID fetch s) = None)"
proof (intro conjI impI)
  assume o: "outcome fetch (submit_request randomUUID s) = Inr ()"
  show "messages (handleSubmit randomUUID fetch s) =
              messages s @
                [\<lparr>role = user, content = trim (input s), sources = None\<rparr>,
                 \<lparr>role = assistant,
                  content = concat (delivered fetch (submit_request randomUUID s)),
                  sources = None\<rparr>]"
    using assms o by (simp add: handleSubmit_run settle_ok_fields streamed_fields)
  show "\<not> isLoading (handleSubmit randomUUID fetch s)"
    using assms o by (simp add: handleSubmit_run settle_ok_fields)
  show "errorMessage (handleSubmit randomUUID fetch s) = None"
    using assms o
    by (simp add: handleSubmit_run settle_ok_fields streamed_fields submit_begin_fields)
next
  assume a: "fetch ((submit_request randomUUID s)\<lparr>stream := Some True\<rparr>) = Inr r" "ok r"
    "body r = Some (map Chunk cs @ rest)"
    "concat (map (\<lambda>c. payloads (split_nn c)) cs) = fs @ ''[DONE]'' # after"
    "''[DONE]'' \<notin> set fs"
  note run = sentinel_run [of fetch "submit_request randomUUID s" r cs rest fs after, OF a]
  show "delivered fetch (submit_request randomUUID s) = fs"
    by (rule run)
  show "messages (handleSubmit randomUUID fetch s) =
          messages s @
            [\<lparr>role = user, content = trim (input s), sources = None\<rparr>,
             \<lparr>role = assistant, content = concat fs, sources = None\<rparr>]"
    using assms by (simp add: handleSubmit_run run settle_ok_fields streamed_fields)
  show "\<not> isLoading (handleSubmit randomUUID fetch s)"
    using assms by (simp add: handleSubmit_run run settle_ok_fields)
  show "errorMessage (handleSubmit randomUUID fetch s) = None"
    using assms
    by (simp add: handleSubmit_run run settle_ok_fields streamed_fields submit_begin_fields)
qed

theorem C2_fragments_concatenated_witness:
  "messages (handleSubmit None (serve_chunks None hello_world_chunks) (initial\<lparr>input := ''hi''\<rparr>)) =
     [greeting, \<lparr>role = user, content = ''hi'', sources = None\<rparr>,
      \<lparr>role = assistant, content = ''Hello world'', sources = None\<rparr>]
   \<and> \<not> isLoading (handleSubmit None (serve_chunks None hello_world_chunks) (initial\<lparr>input := ''hi''\<rparr>))
   \<and> errorMessage (handleSubmit None (serve_chunks None hello_world_chunks) (initial\<lparr>input := ''hi''\<rparr>)) = None
   \<and> delivered late_after_done hi_request = [''Hello'', '' world'']
   \<and> messages (handleSubmit None late_after_done (initial\<lparr>input := ''hi''\<rparr>)) =
     [greeting, \<lparr>role = user, content = ''hi'', sources = None\<rparr>,
      \<lparr>role = assistant, content = ''Hello world'', sources = None\<rparr>]
   \<and> \<not> isLoading (handleSubmit None late_after_done (initial\<lparr>input := ''hi''\<rparr>))
   \<and> errorMessage (handleSubmit None late_after_done (initial\<lparr>input := ''hi''\<rparr>)) = None"
proof -
  have p: "concat (map (\<lambda>c. payloads (split_nn c)) hello_world_chunks) =
      [''Hello'', '' world''] @ ''[DONE]'' # []"
    by (simp add: hello_world_chunks_def payloads_def)
  have n: "''[DONE]'' \<notin> set [''Hello'', '' world'']"
    by simp
  have b: "late_after_done (hi_request\<lparr>stream := Some True\<rparr>) =
      Inr \<lparr>ok = True, status = 200,
          body = Some (map Chunk hello_world_chunks @
                       [Chunk (''data: late'' @ [CHR 0x0A, CHR 0x0A]),
                        ReadFailure (Error ''network error'')]),
          text_body = Some [], x_request_id = None\<rparr>"
    by (simp add: late_after_done_def)
  show ?thesis
    using p n b
      C2_fragments_concatenated
        [where s = "initial\<lparr>input := ''hi''\<rparr>" and randomUUID = None
           and fetch = "serve_chunks None hello_world_chunks"]
      C2_fragments_concatenated
        [where s = "initial\<lparr>input := ''hi''\<rparr>" and randomUUID = None
           and fetch = late_after_done and cs = hello_world_chunks
           and rest = "[Chunk (''data: late'' @ [CHR 0x0A, CHR 0x0A]),
                        ReadFailure (Error ''network error'')]"
           and fs = "[''Hello'', '' world'']" and after = "[]"]
    by (simp add: hi_guard trim_hi submit_hi hw_delivered hw_outcome)
qed

subsection \<open>Frames and read chunks\<close>

text \<open>
  C3, as stated, at the text \<open>data: Hello\<close> followed by the delimiter: read as one
  chunk it forwards the fragment \<open>Hello\<close>; read as the two chunks \<open>data: Hel\<close> and
  \<open>lo\<close> with the delimiter it forwards the fragment \<open>Hel\<close>.
\<close>

theorem C3_partition_changes_fragments:
  "concat hello_one_chunk = concat hello_two_chunks
   \<and> delivered (serve_chunks None hello_one_chunk) hi_request = [''Hello'']
   \<and> delivered (serve_chunks None hello_two_chunks) hi_request = [''Hel'']"
  by (simp add: delivered_chunks hello_one_chunk_def hello_two_chunks_def payloads_def
      until_done_def)

text \<open>
  C3, amended: frames are recognised chunk by chunk.  Each read chunk is split on the
  delimiter by itself, nothing is carried over to the next chunk, and the payloads of its
  pieces with the prefix \<open>data: \<close> are forwarded in order, up to the first \<open>[DONE]\<close>.
  When every chunk ends where a frame ends, the fragments forwarded are the frames of the
  accumulated text, so two such partitions of one text forward the same fragments.
\<close>

theorem C3_fragments_chunk_by_chunk:
  "delivered (serve_chunks rid cs) q =
     until_done (concat (map (\<lambda>c. payloads (split_nn c)) cs))
   \<and> ((\<forall>c \<in> set cs. whole_frames c) \<longrightarrow>
        delivered (serve_chunks rid cs) q = until_done (payloads (split_nn (concat cs))))
   \<and> ((\<forall>c \<in> set cs. whole_frames c) \<longrightarrow> (\<forall>c \<in> set cs'. whole_frames c) \<longrightarrow>
        concat cs = concat cs' \<longrightarrow>
        delivered (serve_chunks rid cs) q = delivered (serve_chunks rid' cs') q')"
  by (simp add: delivered_chunks payloads_whole_frames)

theorem C3_fragments_chunk_by_chunk_witness:
  "delivered (serve_chunks None hello_world_chunks) hi_request = [''Hello'', '' world'']
   \<and> delivered (serve_chunks None [concat hello_world_chunks]) hi_request =
       delivered (serve_chunks None hello_world_chunks) hi_request"
proof -
  have w1: "\<forall>c \<in> set hello_world_chunks. whole_frames c"
    by (simp add: hello_world_chunks_def whole_frames_def)
  have w2: "\<forall>c \<in> set [concat hello_world_chunks]. whole_frames c"
    by (simp add: hello_world_chunks_def whole_frames_def)
  have p: "until_done (payloads (split_nn (concat hello_world_chunks))) = [''Hello'', '' world'']"
    by (simp add: hello_world_chunks_def payloads_def until_done_def)
  have c: "concat hello_world_chunks = concat [concat hello_world_chunks]"
    by simp
  note t = C3_fragments_chunk_by_chunk
        [where cs = hello_world_chunks and cs' = "[concat hello_world_chunks]" and rid = None
           and rid' = None and q = hi_request and q' = hi_request]
  from t w1 have a: "delivered (serve_chunks None hello_world_chunks) hi_request =
      until_done (payloads (split_nn (concat hello_world_chunks)))"
    by blast
  from t w1 w2 c have b: "delivered (serve_chunks None hello_world_chunks) hi_request =
      delivered (serve_chunks None [concat hello_world_chunks]) hi_request"
    by blast
  show ?thesis
    using a b p by simp
qed

subsection \<open>Failure after fragments\<close>

text \<open>
  C4, as stated, at a stream that delivers one fragment, the empty payload of the frame
  \<open>data: \<close>, and then fails: the assistant message of the attempt, the entry at index 2
  of the transcript, does not keep the concatenation of the delivered fragments (the
  empty text); its content is replaced by the apology.
\<close>

theorem C4_empty_fragment_replaced:
  "delivered empty_then_fail hi_request = [[]]
   \<and> outcome empty_then_fail hi_request = Inl (Error ''network error'')
   \<and> messages (handleSubmit None empty_then_fail (initial\<lparr>input := ''hi''\<rparr>)) =
       [greeting, \<lparr>role = user, content = ''hi'', sources = None\<rparr>,
        \<lparr>role = assistant, content = apology, sources = None\<rparr>]
   \<and> content (messages (handleSubmit None empty_then_fail (initial\<lparr>input := ''hi''\<rparr>)) ! 2)
       \<noteq> concat (delivered empty_then_fail hi_request)"
proof -
  have "messages (handleSubmit None empty_then_fail (initial\<lparr>input := ''hi''\<rparr>)) =
       [greeting, \<lparr>role = user, content = ''hi'', sources = None\<rparr>,
        \<lparr>role = assistant, content = apology, sources = None\<rparr>]"
    using apologize_snoc [of "[greeting, \<lparr>role = user, content = ''hi'', sources = None\<rparr>]"
        "\<lparr>role = assistant, content = [], sources = None\<rparr>"]
    by (simp add: hi_submit_run empty_then_fail_run settle_error_fields streamed_fields)
  then show ?thesis
    by (simp add: empty_then_fail_run apology_def)
qed

text \<open>
  C4, amended: for every failure of an attempt, send or retry, the outcome depends on the
  text delivered so far, not on whether a fragment arrived.  When the concatenation of the
  delivered fragments is not empty, the assistant message of the attempt keeps exactly
  that concatenation; when it is empty (every delivered fragment is the empty text), the
  content of that message is replaced by the apology.  In both cases every entry before
  that message is as it was, the error message is set and the controller is no longer
  busy.
\<close>

theorem C4_partial_content_preserved:
  "(trim (input s) \<noteq> [] \<longrightarrow> \<not> isLoading s \<longrightarrow>
    outcome f (submit_request u s) = Inl e \<longrightarrow>
      messages (handleSubmit u f s) ! (length (messages s) + 1) =
        \<lparr>role = assistant,
         content = (if concat (delivered f (submit_request u s)) \<noteq> []
                    then concat (delivered f (submit_request u s)) else apology),
         sources = None\<rparr>
      \<and> take (length (messages s) + 1) (messages (handleSubmit u f s)) =
          messages s @ [\<lparr>role = user, content = trim (input s), sources = None\<rparr>]
      \<and> errorMessage (handleSubmit u f s) = Some (thrown_message e)
      \<and> \<not> isLoading (handleSubmit u f s))
   \<and> (truthy (errorMessage s) \<longrightarrow> lastUserMessage s = Some l \<longrightarrow> l \<noteq> [] \<longrightarrow>
      \<not> isLoading s \<longrightarrow>
      outcome f (retry_request l s) = Inl e \<longrightarrow>
        messages (retry f s) ! length (messages s) =
          \<lparr>role = assistant,
           content = (if concat (delivered f (retry_request l s)) \<noteq> []
                      then concat (delivered f (retry_request l s)) else apology),
           sources = None\<rparr>
        \<and> take (length (messages s)) (messages (retry f s)) = messages s
        \<and> errorMessage (retry f s) = Some (thrown_message e)
        \<and> \<not> isLoading (retry f s))"
proof (intro conjI impI)
  assume a: "trim (input s) \<noteq> []" "\<not> isLoading s" "outcome f (submit_request u s) = Inl e"
  show "messages (handleSubmit u f s) ! (length (messages s) + 1) =
        \<lparr>role = assistant,
         content = (if concat (delivered f (submit_request u s)) \<noteq> []
                    then concat (delivered f (submit_request u s)) else apology),
         sources = None\<rparr>"
  proof (cases "concat (delivered f (submit_request u s)) = []")
    case True
    from handleSubmit_failed_empty [OF a True] True show ?thesis
      by (simp add: nth_append)
  next
    case False
    from handleSubmit_failed_partial [OF a False] False show ?thesis
      by (simp add: nth_append)
  qed
  show "take (length (messages s) + 1) (messages (handleSubmit u f s)) =
          messages s @ [\<lparr>role = user, content = trim (input s), sources = None\<rparr>]"
  proof (cases "concat (delivered f (submit_request u s)) = []")
    case True
    from handleSubmit_failed_empty [OF a True] show ?thesis by simp
  next
    case False
    from handleSubmit_failed_partial [OF a False] show ?thesis by simp
  qed
  show "errorMessage (handleSubmit u f s) = Some (thrown_message e)"
    using a by (simp add: handleSubmit_run settle_error_fields)
  show "\<not> isLoading (handleSubmit u f s)"
    using a by (simp add: handleSubmit_run settle_error_fields)
next
  assume a: "truthy (errorMessage s)" "lastUserMessage s = Some l" "l \<noteq> []" "\<not> isLoading s"
    "outcome f (retry_request l s) = Inl e"
  show "messages (retry f s) ! length (messages s) =
          \<lparr>role = assistant,
           content = (if concat (delivered f (retry_request l s)) \<noteq> []
                      then concat (delivered f (retry_request l s)) else apology),
           sources = None\<rparr>"
  proof (cases "concat (delivered f (retry_request l s)) = []")
    case True
    from retry_failed_empty [OF a True] True show ?thesis
      by (simp add: nth_append)
  next
    case False
    from retry_failed_partial [OF a False] False show ?thesis
      by (simp add: nth_append)
  qed
  show "take (length (messages s)) (messages (retry f s)) = messages s"
  proof (cases "concat (delivered f (retry_request l s)) = []")
    case True
    from retry_failed_empty [OF a True] show ?thesis by simp
  next
    case False
    from retry_failed_partial [OF a False] show ?thesis by simp
  qed
  show "errorMessage (retry f s) = Some (thrown_message e)"
    using a by (simp add: retry_run settle_error_fields)
  show "\<not> isLoading (retry f s)"
    using a by (simp add: retry_run settle_error_fields)
qed

theorem C4_partial_content_preserved_witness:
  "messages (handleSubmit None partial_then_fail (initial\<lparr>input := ''hi''\<rparr>)) ! 2 =
     \<lparr>role = assistant, content = ''Partial'', sources = None\<rparr>
   \<and> take 2 (messages (handleSubmit None partial_then_fail (initial\<lparr>input := ''hi''\<rparr>))) =
       [greeting, \<lparr>role = user, content = ''hi'', sources = None\<rparr>]
   \<and> errorMessage (handleSubmit None partial_then_fail (initial\<lparr>input := ''hi''\<rparr>)) =
       Some ''network error''
   \<and> messages (handleSubmit None empty_then_fail (initial\<lparr>input := ''hi''\<rparr>)) ! 2 =
     \<lparr>role = assistant, content = apology, sources = None\<rparr>
   \<and> messages (retry partial_then_fail after_boom) ! 3 =
       \<lparr>role = assistant, content = ''Partial'', sources = None\<rparr>
   \<and> take 3 (messages (retry partial_then_fail after_boom)) = messages after_boom
   \<and> errorMessage (retry partial_then_fail after_boom) = Some ''network error''
   \<and> messages (retry empty_then_fail after_boom) ! 3 =
       \<lparr>role = assistant, content = apology, sources = None\<rparr>"
  using C4_partial_content_preserved
          [where s = "initial\<lparr>input := ''hi''\<rparr>" and u = None and f = partial_then_fail
             and e = "Error ''network error''"]
        C4_partial_content_preserved
          [where s = "initial\<lparr>input := ''hi''\<rparr>" and u = None and f = empty_then_fail
             and e = "Error ''network error''"]
        C4_partial_content_preserved
          [where s = after_boom and f = partial_then_fail and l = "''hi''"
             and e = "Error ''network error''"]
        C4_partial_content_preserved
          [where s = after_boom and f = empty_then_fail and l = "''hi''"
             and e = "Error ''network error''"]
  by (simp add: hi_guard trim_hi submit_hi partial_then_fail_run empty_then_fail_run
      thrown_message_def after_boom_eq truthy_simps eval_nat_numeral)

subsection \<open>Failure before any text\<close>



subsection \<open>Retry\<close>

text \<open>
  C6: after a send that failed with an error message, Retry hands to the Transport the
  very request of the failed send, the same text under the same session identity; it
  appends no user message and exactly one assistant message, empty at first, into which
  the fragments of the new stream accumulate (after a failure of the retry the apology
  is applied to that transcript); the session identity and the last user text stay as
  they are for a further retry.  \<open>crypto.randomUUID()\<close>, where it exists, returns a
  string of 36 characters, never the empty string.
\<close>

theorem C6_retry_same_session:
  assumes "trim (input s) \<noteq> []" and "\<not> isLoading s" and "randomUUID \<noteq> Some []"
    and "outcome f1 (submit_request randomUUID s) = Inl e" and "thrown_message e \<noteq> []"
  shows "calls (retry f2 (handleSubmit randomUUID f1 s)) =
           calls s @ [submit_request randomUUID s, submit_request randomUUID s]
         \<and> messages (retry f2 (handleSubmit randomUUID f1 s)) =
             (case outcome f2 (submit_request randomUUID s) of
                Inr _ \<Rightarrow>
                  messages (handleSubmit randomUUID f1 s) @
                    [\<lparr>role = assistant,
                      content = concat (delivered f2 (submit_request randomUUID s)),
                      sources = None\<rparr>]
              | Inl e' \<Rightarrow>
                  apologize
                    (messages (handleSubmit randomUUID f1 s) @
                       [\<lparr>role = assistant,
                         content = concat (delivered f2 (submit_request randomUUID s)),
                         sources = None\<rparr>]))
         \<and> filter (\<lambda>m. role m = user) (messages (retry f2 (handleSubmit randomUUID f1 s))) =
             filter (\<lambda>m. role m = user) (messages (handleSubmit randomUUID f1 s))
         \<and> sessionId (retry f2 (handleSubmit randomUUID f1 s)) =
             sessionId (handleSubmit randomUUID f1 s)
         \<and> lastUserMessage (retry f2 (handleSubmit randomUUID f1 s)) =
             lastUserMessage (handleSubmit randomUUID f1 s)"
proof -
  let ?s1 = "handleSubmit randomUUID f1 s"
  let ?rq = "submit_request randomUUID s"
  note f = failed_send_fields [OF assms(1-4)]
  have rq: "retry_request (trim (input s)) ?s1 = ?rq"
    by (simp add: retry_request_def submit_request_def f)
  have "retry f2 ?s1 =
      settle (outcome f2 (retry_request (trim (input s)) ?s1),
              streamed f2 (retry_request (trim (input s)) ?s1) (messages ?s1)
                (retry_begin (trim (input s)) ?s1))"
    using assms(1,5) by (intro retry_run) (simp_all add: f truthy_simps)
  then have run: "retry f2 ?s1 =
      settle (outcome f2 ?rq, streamed f2 ?rq (messages ?s1) (retry_begin (trim (input s)) ?s1))"
    by (simp only: rq)
  show ?thesis
  proof (cases "outcome f2 ?rq")
    case (Inl e')
    then show ?thesis
      by (simp add: run settle_error_fields streamed_fields retry_begin_fields f rq
          filter_user_apologize)
  next
    case (Inr v)
    then show ?thesis
      by (simp add: run settle_ok_fields streamed_fields retry_begin_fields f rq)
  qed
qed

theorem C6_retry_same_session_witness:
  "calls (retry (serve_chunks None fixed_chunks)
            (handleSubmit (Some ''u-1'') (respond boom_response) (initial\<lparr>input := ''hi''\<rparr>))) =
     [\<lparr>message = ''hi'', session_id = Some ''u-1'', stream = None\<rparr>,
      \<lparr>message = ''hi'', session_id = Some ''u-1'', stream = None\<rparr>]
   \<and> messages (retry (serve_chunks None fixed_chunks)
            (handleSubmit (Some ''u-1'') (respond boom_response) (initial\<lparr>input := ''hi''\<rparr>))) =
       messages (handleSubmit (Some ''u-1'') (respond boom_response) (initial\<lparr>input := ''hi''\<rparr>)) @
         [\<lparr>role = assistant, content = ''Fixed'', sources = None\<rparr>]"
  using C6_retry_same_session
          [where s = "initial\<lparr>input := ''hi''\<rparr>" and randomUUID = "Some ''u-1''"
             and ?f1.0 = "respond boom_response" and ?f2.0 = "serve_chunks None fixed_chunks"
             and e = "Error ''boom (request_id=req-999)''"]
  by (simp add: hi_guard trim_hi boom_run fixed_run thrown_message_def submit_request_def
      submit_sid_def initial_fields)

subsection \<open>The guard of \<open>handleSubmit\<close>\<close>

text \<open>
  C7: when the input is empty or consists of white space only, or while an attempt is in
  flight, \<open>handleSubmit\<close> returns the state as it is: no message is appended, no request
  is handed to the Transport, nothing changes.  Every state of an attempt between its
  dispatch (by send or by retry) and its settlement, after any number of callbacks, is
  busy, so the guard applies there.
\<close>

theorem C7_guarded_send_is_noop:
  "((\<forall>c \<in> set (input s). is_space c) \<or> isLoading s \<longrightarrow> handleSubmit randomUUID fetch s = s)
   \<and> isLoading (fold onChunk_cb fs (start_with (Some onStart_cb) st (submit_begin u s')))
   \<and> isLoading (fold onChunk_cb fs (start_with (Some onStart_cb) st (retry_begin l s')))"
  by (auto simp: handleSubmit_def trim_empty_iff fold_onChunk_isLoading start_with_cb_fields
      submit_begin_fields retry_begin_fields)

theorem C7_guarded_send_is_noop_witness:
  "handleSubmit None (respond boom_response) (initial\<lparr>input := ''   ''\<rparr>) = initial\<lparr>input := ''   ''\<rparr>
   \<and> handleSubmit None (respond boom_response) (initial\<lparr>input := []\<rparr>) = initial\<lparr>input := []\<rparr>
   \<and> handleSubmit None (respond boom_response) (submit_begin None (initial\<lparr>input := ''hi''\<rparr>))
       = submit_begin None (initial\<lparr>input := ''hi''\<rparr>)"
  using C7_guarded_send_is_noop
          [where s = "initial\<lparr>input := ''   ''\<rparr>" and randomUUID = None
             and fetch = "respond boom_response" and fs = "[]" and st = None and u = None
             and s' = "initial\<lparr>input := ''hi''\<rparr>"]
        C7_guarded_send_is_noop
          [where s = "initial\<lparr>input := []\<rparr>" and randomUUID = None
             and fetch = "respond boom_response"]
        C7_guarded_send_is_noop
          [where s = "submit_begin None (initial\<lparr>input := ''hi''\<rparr>)" and randomUUID = None
             and fetch = "respond boom_response" and fs = "[]" and st = None and u = None
             and s' = "initial\<lparr>input := ''hi''\<rparr>"]
  by (simp add: is_space_def start_with_def)

subsection \<open>The stored correlation id\<close>

text \<open>
  C8, as stated, after Scenario B: a retry whose \<open>fetch\<close> is refused yields no correlation
  id, yet the stored id is still \<open>req-999\<close>, the id of the previous attempt, and it is
  the one shown beside the new error.
\<close>

theorem C8_stale_request_id:
  "requestId after_boom = Some ''req-999''
   \<and> attempt_request_id refuse (retry_request ''hi'' after_boom) = None
   \<and> requestId (retry refuse after_boom) = Some ''req-999''
   \<and> errorMessage (retry refuse after_boom) = Some ''Failed to fetch''"
proof -
  have "retry refuse after_boom =
      settle (outcome refuse (retry_request ''hi'' after_boom),
              streamed refuse (retry_request ''hi'' after_boom) (messages after_boom)
                (retry_begin ''hi'' after_boom))"
    by (rule retry_run) (simp_all add: after_boom_eq truthy_simps)
  then show ?thesis
    by (simp add: refuse_run settle_error_fields streamed_fields retry_begin_fields
        thrown_message_def match_refused attempt_request_id_def after_boom_eq
        del: match_request_id.simps)
qed

text \<open>
  C8, amended: the stored correlation id starts absent and is overwritten only by an
  attempt that yields one, from the header passed to \<open>onStart\<close> or from the pattern
  \<open>request_id=\<close> in the error text; an attempt, send or retry, that yields none leaves
  the stored id as it was.
\<close>

theorem C8_request_id_kept_unless_yielded:
  "(trim (input s) \<noteq> [] \<longrightarrow> \<not> isLoading s \<longrightarrow>
      requestId (handleSubmit u f s) =
        (case attempt_request_id f (submit_request u s) of
           Some i \<Rightarrow> Some i | None \<Rightarrow> requestId s))
   \<and> (truthy (errorMessage s) \<longrightarrow> lastUserMessage s = Some l \<longrightarrow> l \<noteq> [] \<longrightarrow> \<not> isLoading s \<longrightarrow>
      requestId (retry f s) =
        (case attempt_request_id f (retry_request l s) of
           Some i \<Rightarrow> Some i | None \<Rightarrow> requestId s))"
proof -
  have key: "requestId (settle (outcome f q, streamed f q xs s0)) =
      (case attempt_request_id f q of Some i \<Rightarrow> Some i | None \<Rightarrow> requestId s0)" for q xs s0
  proof (cases "outcome f q")
    case (Inl e)
    then show ?thesis
      by (cases "started f q"; cases "match_request_id (thrown_message e)")
         (auto simp: attempt_request_id_def settle_error_fields streamed_fields
           or_undefined_truthy or_undefined_falsy truthy_simps split: option.splits)
  next
    case (Inr v)
    then show ?thesis
      by (cases "started f q")
         (auto simp: attempt_request_id_def settle_ok_fields streamed_fields
           or_undefined_truthy or_undefined_falsy truthy_simps split: option.splits)
  qed
  show ?thesis
    by (simp add: handleSubmit_run retry_run key submit_begin_fields retry_begin_fields
        split: option.splits)
qed

theorem C8_request_id_kept_unless_yielded_witness:
  "requestId (handleSubmit None (respond boom_response) (initial\<lparr>input := ''hi''\<rparr>)) = Some ''req-999''
   \<and> truthy (errorMessage after_boom) \<and> lastUserMessage after_boom = Some ''hi''
   \<and> \<not> isLoading after_boom
   \<and> requestId (retry refuse after_boom) = requestId after_boom"
proof -
  have 1: "attempt_request_id (respond boom_response) q = Some ''req-999''" for q
    by (simp add: attempt_request_id_def boom_run thrown_message_def match_boom
        del: match_request_id.simps)
  have 2: "attempt_request_id refuse q = None" for q
    by (simp add: attempt_request_id_def refuse_run thrown_message_def match_refused
        del: match_request_id.simps)
  show ?thesis
    using C8_request_id_kept_unless_yielded
            [where s = "initial\<lparr>input := ''hi''\<rparr>" and u = None and f = "respond boom_response"]
          C8_request_id_kept_unless_yielded
            [where s = after_boom and f = refuse and l = "''hi''"]
    by (simp add: 1 2 after_boom_eq hi_guard trim_hi truthy_simps)
qed

subsection \<open>The apology after a failure\<close>

text \<open>
  C9: when the trailing entry is a user message or an assistant message with content,
  \<open>applyStreamError\<close> appends one more assistant message holding the apology; so after
  a send that fails once fragments with some text have arrived, the transcript ends
  with the partial assistant message followed by the apology.
\<close>

theorem C9_apology_appended:
  "(messages s = xs @ [m] \<longrightarrow> role m = user \<or> content m \<noteq> [] \<longrightarrow>
      messages (applyStreamError e s) =
        xs @ [m, \<lparr>role = assistant, content = apology, sources = None\<rparr>])
   \<and> (trim (input s) \<noteq> [] \<longrightarrow> \<not> isLoading s \<longrightarrow>
      outcome f (submit_request u s) = Inl e \<longrightarrow>
      concat (delivered f (submit_request u s)) \<noteq> [] \<longrightarrow>
        messages (handleSubmit u f s) =
          messages s @
            [\<lparr>role = user, content = trim (input s), sources = None\<rparr>,
             \<lparr>role = assistant, content = concat (delivered f (submit_request u s)),
              sources = None\<rparr>,
             \<lparr>role = assistant, content = apology, sources = None\<rparr>])"
  using handleSubmit_failed_partial [of s f u e]
  by (auto simp: applyStreamError_messages apologize_snoc)

theorem C9_apology_appended_witness:
  "messages (applyStreamError NonError user_last) =
     [greeting, \<lparr>role = user, content = ''hi'', sources = None\<rparr>,
      \<lparr>role = assistant, content = apology, sources = None\<rparr>]
   \<and> messages (handleSubmit None partial_then_fail (initial\<lparr>input := ''hi''\<rparr>)) =
       [greeting, \<lparr>role = user, content = ''hi'', sources = None\<rparr>,
        \<lparr>role = assistant, content = ''Partial'', sources = None\<rparr>,
        \<lparr>role = assistant, content = apology, sources = None\<rparr>]"
  using C9_apology_appended
          [where s = user_last and xs = "[greeting]"
             and m = "\<lparr>role = user, content = ''hi'', sources = None\<rparr>" and e = NonError]
        C9_apology_appended
          [where s = "initial\<lparr>input := ''hi''\<rparr>" and f = partial_then_fail and u = None
             and e = "Error ''network error''"]
  by (simp add: user_last_def hi_guard trim_hi submit_hi partial_then_fail_run)

subsection \<open>The greeting\<close>

text \<open>
  C10: the transcript starts as the single greeting, an assistant message, and in every
  state the page can reach it is not empty and its first entry is still that greeting,
  unchanged; a send and a retry, run from dispatch to settlement with any answer of the
  network, lead from reachable states to reachable states.
\<close>

theorem C10_greeting_stays_first:
  "messages initial = [greeting] \<and> role greeting = assistant
   \<and> (reachable s \<longrightarrow>
        messages s \<noteq> [] \<and> hd (messages s) = greeting \<and> role (hd (messages s)) = assistant
        \<and> reachable (handleSubmit u f s) \<and> reachable (retry f' s))"
  using reachable_greeting [of s] reachable_handleSubmit [of s u f] reachable_retry [of s f']
  by (auto simp: initial_def greeting_def)

theorem C10_greeting_stays_first_witness:
  "messages after_boom \<noteq> [] \<and> hd (messages after_boom) = greeting
   \<and> role (hd (messages after_boom)) = assistant
   \<and> hd (messages (retry (serve_chunks None fixed_chunks) after_boom)) = greeting"
proof -
  have 0: "reachable (initial\<lparr>input := ''hi''\<rparr>)"
    by (intro reachable.typing reachable.init)
  from C10_greeting_stays_first
         [where s = "initial\<lparr>input := ''hi''\<rparr>" and u = None and f = "respond boom_response"] 0
  have 1: "reachable after_boom"
    by (simp add: after_boom_def)
  from C10_greeting_stays_first
         [where s = after_boom and f' = "serve_chunks None fixed_chunks"] 1
  have 2: "messages after_boom \<noteq> [] \<and> hd (messages after_boom) = greeting
      \<and> role (hd (messages after_boom)) = assistant"
    and 3: "reachable (retry (serve_chunks None fixed_chunks) after_boom)"
    by blast+
  from C10_greeting_stays_first
         [where s = "retry (serve_chunks None fixed_chunks) after_boom"] 3
  have "hd (messages (retry (serve_chunks None fixed_chunks) after_boom)) = greeting"
    by blast
  with 2 show ?thesis by blast
qed

end
